theory Spec2Isabelle
  imports Main "HOL-Library.Sublist" "HOL-Library.AList"
begin

section \<open>Strings\<close>

text \<open>
  A JavaScript string is modelled as a \<^typ>\<open>string\<close>, a list of 8-bit code units. For
  header values (byte strings) and URL paths (ASCII) this is the value itself; other text
  is read as its UTF-8 bytes.

  \<^verbatim>\<open>String.prototype.toLowerCase\<close> on code units below 256: the ASCII capitals and
  the Latin-1 capitals (0xC0 to 0xDE, without the multiplication sign 0xD7) move up by 32.
\<close>

definition toLowerCase_char :: "char \<Rightarrow> char" where
  "toLowerCase_char c =
     (let n = (of_char c :: nat)
      in if (65 \<le> n \<and> n \<le> 90) \<or> (192 \<le> n \<and> n \<le> 222 \<and> n \<noteq> 215)
         then char_of (n + 32) else c)"

definition toLowerCase :: "string \<Rightarrow> string" where
  "toLowerCase s = map toLowerCase_char s"

text \<open>\<^verbatim>\<open>s.includes(t)\<close>: \<open>t\<close> starts at some position of \<open>s\<close>.\<close>

fun str_includes :: "string \<Rightarrow> string \<Rightarrow> bool" where
  "str_includes [] t = (t = [])"
| "str_includes (c # s) t = (prefix t (c # s) \<or> str_includes s t)"

text \<open>\<^verbatim>\<open>xs.join(sep)\<close> on an array of strings.\<close>

fun join :: "string \<Rightarrow> string list \<Rightarrow> string" where
  "join sep [] = []"
| "join sep [x] = x"
| "join sep (x # y # ys) = x @ sep @ join sep (y # ys)"


section \<open>Bot classifier (middleware.ts)\<close>

definition BOT_AGENTS :: "string list" where
  "BOT_AGENTS = [
     \<comment> \<open>Search Engines\<close>
     ''googlebot'', ''bingbot'', ''yandexbot'', ''baiduspider'', ''duckduckbot'',
     ''slurp'', ''sogou'', ''exabot'', ''ia_archiver'',
     \<comment> \<open>AI Crawlers\<close>
     ''gptbot'', ''chatgpt-user'', ''oai-searchbot'',
     ''claudebot'', ''claude-user'', ''claude-searchbot'',
     ''google-extended'', ''google-cloudvertexbot'', ''gemini-deep-research'',
     ''perplexitybot'', ''perplexity-user'',
     ''meta-externalagent'', ''meta-webindexer'',
     ''bytespider'', ''amazonbot'', ''duckassistbot'',
     ''mistralai-user'', ''cohere-ai'', ''ccbot'', ''diffbot'', ''webzio'', ''icc-crawler'',
     \<comment> \<open>Social Media\<close>
     ''facebookexternalhit'', ''facebot'', ''twitterbot'', ''linkedinbot'',
     ''pinterest'', ''whatsapp'', ''telegrambot'', ''slackbot'', ''discordbot'',
     ''vkshare'', ''redditbot'', ''tumblr'', ''embedly'', ''quora link preview'', ''outbrain'',
     \<comment> \<open>SEO Tools\<close>
     ''semrushbot'', ''ahrefsbot'', ''mj12bot'', ''dotbot'', ''rogerbot'',
     ''screaming frog'', ''seokicks'', ''blexbot'', ''siteexplorer'', ''serpstatbot'',
     \<comment> \<open>Apple and Other\<close>
     ''applebot'', ''applebot-extended'', ''petalbot'', ''seznambot'',
     ''naver'', ''yeti'', ''qwantify'', ''ecosia'', ''mojeek'',
     \<comment> \<open>Google Specific\<close>
     ''mediapartners-google'', ''adsbot-google'', ''feedfetcher-google'',
     ''google-read-aloud'', ''storebot-google'', ''google-safety'',
     \<comment> \<open>Archive and Research\<close>
     ''archive.org_bot'', ''wayback'', ''wget'', ''curl'', ''python-requests'',
     ''go-http-client'', ''java'', ''libwww-perl'', ''axios'', ''httpie'', ''postman'',
     \<comment> \<open>Feed Readers\<close>
     ''feedly'', ''flipboard'', ''newsblur'', ''inoreader'', ''theoldreader'', ''feedbin'']"

text \<open>
  \<^verbatim>\<open>if (!ua) return false\<close>: the empty string is falsy. Otherwise
  \<^verbatim>\<open>BOT_AGENTS.some(bot => lower.includes(bot))\<close>.
\<close>

definition isBot :: "string \<Rightarrow> bool" where
  "isBot ua =
     (if ua = [] then False
      else let lower = toLowerCase ua
           in list_ex (\<lambda>bot. str_includes lower bot) BOT_AGENTS)"


section \<open>HTML injector (middleware.ts)\<close>

text \<open>
  \<^verbatim>\<open>html.replace('</head>', ...)\<close> is \<^verbatim>\<open>String.prototype.replace\<close> with a string
  pattern: the first occurrence of the pattern is found (\<open>split_first\<close> returns the text
  before and after it), and the replacement text is the replace value after the
  substitution of its dollar patterns (the operation GetSubstitution of the language
  standard). With a string pattern there are no captures, so the patterns that are
  expanded are \<^verbatim>\<open>$$\<close> (a dollar sign), \<^verbatim>\<open>$&\<close> (the matched text), \<^verbatim>\<open>$`\<close> (the text before
  the match) and \<^verbatim>\<open>$'\<close> (the text after the match); every other character, also a dollar
  sign followed by a digit, is copied.
\<close>

fun split_first :: "string \<Rightarrow> string \<Rightarrow> (string \<times> string) option" where
  "split_first pat [] = (if pat = [] then Some ([], []) else None)"
| "split_first pat (c # s) =
     (if prefix pat (c # s) then Some ([], drop (length pat) (c # s))
      else map_option (\<lambda>(preceding, following). (c # preceding, following))
             (split_first pat s))"

fun GetSubstitution :: "string \<Rightarrow> string \<Rightarrow> string \<Rightarrow> string \<Rightarrow> string" where
  "GetSubstitution matched preceding following [] = []"
| "GetSubstitution matched preceding following [c] = [c]"
| "GetSubstitution matched preceding following (c # d # rest) =
     (if c = CHR ''$'' \<and> d = CHR ''$''
        then CHR ''$'' # GetSubstitution matched preceding following rest
      else if c = CHR ''$'' \<and> d = CHR ''&''
        then matched @ GetSubstitution matched preceding following rest
      else if c = CHR ''$'' \<and> d = CHR 0x60
        then preceding @ GetSubstitution matched preceding following rest
      else if c = CHR ''$'' \<and> d = CHR 0x27
        then following @ GetSubstitution matched preceding following rest
      else c # GetSubstitution matched preceding following (d # rest))"

definition str_replace :: "string \<Rightarrow> string \<Rightarrow> string \<Rightarrow> string" where
  "str_replace s searchString replaceValue =
     (case split_first searchString s of
        None \<Rightarrow> s
      | Some (preceding, following) \<Rightarrow>
          preceding @ GetSubstitution searchString preceding following replaceValue
            @ following)"

text \<open>
  \<open>injectScripts\<close> receives the pair \<^verbatim>\<open>{ head: string; body: string }\<close> as a pair of
  strings (head first). An empty string is falsy.
\<close>

definition injectScripts :: "string \<Rightarrow> string \<times> string \<Rightarrow> string" where
  "injectScripts html scripts =
     (let html1 = (if fst scripts \<noteq> []
                   then str_replace html ''</head>'' (fst scripts @ [CHR 0x0A] @ ''</head>'')
                   else html);
          html2 = (if snd scripts \<noteq> []
                   then str_replace html1 ''</body>'' (snd scripts @ [CHR 0x0A] @ ''</body>'')
                   else html1)
      in html2)"


section \<open>Requests, responses and headers\<close>

text \<open>
  A \<^verbatim>\<open>Headers\<close> object is the list of its name and value pairs, in the order they were
  given. \<^verbatim>\<open>get\<close> compares names without regard to case and joins the values of a
  repeated name with a comma and a space. \<^verbatim>\<open>entries\<close> yields each lowercased name once,
  with its joined value, except for \<^verbatim>\<open>set-cookie\<close>, whose values are entries of their own,
  as the Fetch standard has it. (The standard also sorts the names; the order of different
  names is not modelled, no operation here observes it.)
\<close>

type_synonym header_list = "(string \<times> string) list"

definition header_values :: "header_list \<Rightarrow> string \<Rightarrow> string list" where
  "header_values hs name =
     map snd (filter (\<lambda>(k, v). toLowerCase k = toLowerCase name) hs)"

definition Headers_get :: "header_list \<Rightarrow> string \<Rightarrow> string option" where
  "Headers_get hs name =
     (case header_values hs name of
        [] \<Rightarrow> None
      | v # vs \<Rightarrow> Some (join '', '' (v # vs)))"

definition Headers_entries :: "header_list \<Rightarrow> header_list" where
  "Headers_entries hs =
     concat (map (\<lambda>name. if name = ''set-cookie''
                           then map (\<lambda>v. (name, v)) (header_values hs name)
                           else [(name, join '', '' (header_values hs name))])
               (remdups (map (\<lambda>(k, v). toLowerCase k) hs)))"

text \<open>
  A JavaScript object with string values is an association list with distinct keys:
  assigning an existing key replaces its value in place, a new key goes to the end.
  \<^verbatim>\<open>Object.fromEntries\<close> assigns the entries in order, so of two entries with the same
  key the second value stays.
\<close>

definition Object_fromEntries :: "(string \<times> string) list \<Rightarrow> (string \<times> string) list" where
  "Object_fromEntries es = fold (\<lambda>(k, v) obj. AList.update k v obj) es []"

text \<open>
  A response is its status, its headers and its body text: \<^verbatim>\<open>new Response(body, init)\<close>
  builds the record, and \<^verbatim>\<open>resp.text()\<close> of a response that has arrived yields the
  body.
\<close>

record response =
  status :: nat
  headers :: header_list
  body :: string

text \<open>\<^verbatim>\<open>resp.ok\<close>: the status is in the range 200 to 299.\<close>

definition ok :: "response \<Rightarrow> bool" where
  "ok resp = (200 \<le> status resp \<and> status resp \<le> 299)"

text \<open>
  An awaited promise settles with a value, settles with an error, or never settles.
  \<^verbatim>\<open>await\<close> on a promise that never settles never resumes, so an \<^verbatim>\<open>async\<close> function
  that awaits it returns a promise that never settles either.
\<close>

datatype 'a promise = Resolved 'a | Rejected | Pending


text \<open>
  An outbound \<^verbatim>\<open>fetch(url, init)\<close>: the URL, the headers of \<open>init\<close>, and the
  timeout of the \<^verbatim>\<open>signal\<close> of \<open>init\<close> in milliseconds when \<open>init\<close> has one.
\<close>

record fetch_call =
  url :: string
  init_headers :: header_list
  signal :: "nat option"

record Env =
  SUPABASE_URL :: "string option"
  SUPABASE_ANON_KEY :: "string option"

text \<open>A value inside a template literal: \<^verbatim>\<open>undefined\<close> is printed by its name.\<close>

definition tmpl :: "string option \<Rightarrow> string" where
  "tmpl v = (case v of None \<Rightarrow> ''undefined'' | Some s \<Rightarrow> s)"

text \<open>\<^verbatim>\<open>!!v\<close> on an optional string: defined and not empty.\<close>

definition truthy :: "string option \<Rightarrow> bool" where
  "truthy v = (case v of None \<Rightarrow> False | Some s \<Rightarrow> s \<noteq> [])"

text \<open>\<^verbatim>\<open>v || ''\<close> on an optional string.\<close>

definition or_empty :: "string option \<Rightarrow> string" where
  "or_empty v = (case v of None \<Rightarrow> [] | Some s \<Rightarrow> s)"

text \<open>The headers every backend call of the middleware sends.\<close>

definition auth_headers :: "Env \<Rightarrow> header_list" where
  "auth_headers env =
     [(''Authorization'', ''Bearer '' @ tmpl (SUPABASE_ANON_KEY env)),
      (''apikey'', tmpl (SUPABASE_ANON_KEY env))]"

text \<open>
  \<^verbatim>\<open>encodeURIComponent\<close> on code units below 256: letters, digits and
  \<^verbatim>\<open>-_.!~*'()\<close> are kept, every other code unit is written as the percent escapes of
  its UTF-8 bytes.
\<close>

definition isDigit :: "char \<Rightarrow> bool" where
  "isDigit c = (let n = (of_char c :: nat) in 48 \<le> n \<and> n \<le> 57)"

definition isAsciiLetter :: "char \<Rightarrow> bool" where
  "isAsciiLetter c =
     (let n = (of_char c :: nat) in (65 \<le> n \<and> n \<le> 90) \<or> (97 \<le> n \<and> n \<le> 122))"

definition uriUnreserved :: "char \<Rightarrow> bool" where
  "uriUnreserved c =
     (isAsciiLetter c \<or> isDigit c \<or> c \<in> set (''-_.!~*()'' @ [CHR 0x27]))"

definition percent :: "nat \<Rightarrow> string" where
  "percent b = [CHR ''%'', ''0123456789ABCDEF'' ! (b div 16), ''0123456789ABCDEF'' ! (b mod 16)]"

definition encodeURIComponent :: "string \<Rightarrow> string" where
  "encodeURIComponent s =
     concat (map (\<lambda>c. let n = (of_char c :: nat)
                      in if uriUnreserved c then [c]
                         else if n < 128 then percent n
                         else percent (192 + n div 64) @ percent (128 + n mod 64)) s)"


section \<open>Script registry cache (middleware.ts)\<close>

text \<open>
  The interface \<open>ScriptCache\<close> declares \<^verbatim>\<open>head\<close> and \<^verbatim>\<open>body\<close> as arrays of strings,
  but what is stored is what the script service sent, and nothing checks it. A stored
  value is an array, given by the strings that \<^verbatim>\<open>join\<close> prints for its elements, or a
  value that is not an array (a string, a number, \<^verbatim>\<open>true\<close>, an object), which has no
  method \<^verbatim>\<open>join\<close>.
\<close>

datatype fragments = Fragments "string list" | NotAnArray

record ScriptCache =
  cache_head :: fragments
  cache_body :: fragments
  fetchedAt :: int

text \<open>
  The document the script service answers with, as \<^verbatim>\<open>resp.json()\<close> yields it: each of
  \<^verbatim>\<open>head\<close> and \<^verbatim>\<open>body\<close> is a truthy value, or it is missing or falsy (\<open>None\<close>), in
  which case \<^verbatim>\<open>data.head || []\<close> is the empty array.
\<close>

record registry_doc =
  json_head :: "fragments option"
  json_body :: "fragments option"

definition or_empty_array :: "fragments option \<Rightarrow> fragments" where
  "or_empty_array v = (case v of None \<Rightarrow> Fragments [] | Some f \<Rightarrow> f)"

text \<open>The object the debug endpoint serialises.\<close>

record debug_info =
  dbg_middleware :: string
  dbg_version :: string
  dbg_hasSupabaseUrl :: bool
  dbg_hasSupabaseKey :: bool
  dbg_hostname :: string
  dbg_userAgent :: string
  dbg_isBot :: bool
  dbg_scriptCacheAge :: "int option"
  dbg_timestamp :: int

text \<open>
  What surrounds one invocation of the middleware: the clock (\<^verbatim>\<open>Date.now()\<close>, in
  milliseconds), the network (the outcome of each outbound call), the origin
  (\<^verbatim>\<open>next()\<close>), and the two serialisation functions of the platform:
  \<open>JSON_parse\<close> is \<^verbatim>\<open>resp.json()\<close> followed by the reading of the two fields
  (\<open>None\<close> when the body is not JSON, or is \<^verbatim>\<open>null\<close>, so that reading a field throws),
  \<open>JSON_stringify\<close> is \<^verbatim>\<open>JSON.stringify\<close> on the debug object.
\<close>

record world =
  now :: int
  fetch :: "fetch_call \<Rightarrow> response promise"
  "next" :: "response promise"
  JSON_parse :: "string \<Rightarrow> registry_doc option"
  JSON_stringify :: "debug_info \<Rightarrow> string"

definition CACHE_TTL_MS :: int where
  "CACHE_TTL_MS = 5 * 60 * 1000"

text \<open>
  The object \<^verbatim>\<open>{ head: scriptCache.head.join('\n'), body: scriptCache.body.join('\n') }\<close>
  that three places of \<open>getScripts\<close> build. Calling \<^verbatim>\<open>join\<close> on a value that is not an
  array throws a \<^verbatim>\<open>TypeError\<close> (\<open>None\<close>).
\<close>

definition joined :: "ScriptCache \<Rightarrow> (string \<times> string) option" where
  "joined c =
     (case cache_head c of
        NotAnArray \<Rightarrow> None
      | Fragments h \<Rightarrow>
          (case cache_body c of
             NotAnArray \<Rightarrow> None
           | Fragments b \<Rightarrow> Some (join [CHR 0x0A] h, join [CHR 0x0A] b)))"

text \<open>
  The end of \<open>getScripts\<close> (lines 118 to 125), outside the \<^verbatim>\<open>try\<close> block: the stored
  value if there is one, else the empty pair. An error thrown here rejects the promise
  that \<open>getScripts\<close> returns.
\<close>

definition stale_or_empty :: "ScriptCache option \<Rightarrow> (string \<times> string) promise" where
  "stale_or_empty scriptCache =
     (case scriptCache of
        None \<Rightarrow> Resolved ([], [])
      | Some c \<Rightarrow> (case joined c of Some scripts \<Rightarrow> Resolved scripts | None \<Rightarrow> Rejected))"

definition script_service_call :: "Env \<Rightarrow> fetch_call" where
  "script_service_call env =
     \<lparr>url = tmpl (SUPABASE_URL env) @ ''/functions/v1/script-service'',
      init_headers = auth_headers env,
      signal = None\<rparr>"

text \<open>
  \<open>getScripts\<close> reads and writes the module-level variable \<open>scriptCache\<close>; the model
  takes its value and returns the new one, together with the promise the function returns
  and the outbound calls it made. The first \<^verbatim>\<open>return\<close> (lines 84 to 89) is outside the
  \<^verbatim>\<open>try\<close> block. Inside the block, \<open>scriptCache\<close> is assigned before the fragments are
  joined, so when the joining throws, the \<^verbatim>\<open>catch\<close> swallows the error, the new value
  stays, and the end of the function joins it again.
\<close>

definition getScripts ::
  "Env \<Rightarrow> world \<Rightarrow> ScriptCache option
     \<Rightarrow> (string \<times> string) promise \<times> ScriptCache option \<times> fetch_call list" where
  "getScripts env w scriptCache =
     (case (case scriptCache of
              None \<Rightarrow> None
            | Some c \<Rightarrow> if now w - fetchedAt c < CACHE_TTL_MS then Some c else None) of
        Some c \<Rightarrow>
          (case joined c of
             Some scripts \<Rightarrow> (Resolved scripts, scriptCache, [])
           | None \<Rightarrow> (Rejected, scriptCache, []))
      | None \<Rightarrow>
          (let call = script_service_call env
           in case fetch w call of
                Pending \<Rightarrow> (Pending, scriptCache, [call])
              | Rejected \<Rightarrow> (stale_or_empty scriptCache, scriptCache, [call])
              | Resolved resp \<Rightarrow>
                  if ok resp then
                    (case JSON_parse w (body resp) of
                       None \<Rightarrow> (stale_or_empty scriptCache, scriptCache, [call])
                     | Some data \<Rightarrow>
                         (let c = \<lparr>cache_head = or_empty_array (json_head data),
                                   cache_body = or_empty_array (json_body data),
                                   fetchedAt = now w\<rparr>
                          in case joined c of
                               Some scripts \<Rightarrow> (Resolved scripts, Some c, [call])
                             | None \<Rightarrow> (stale_or_empty (Some c), Some c, [call])))
                  else (stale_or_empty scriptCache, scriptCache, [call])))"


section \<open>Edge dispatcher (middleware.ts)\<close>

text \<open>
  The regular expression of \<open>isStaticAsset\<close> asks for a dot and one of twenty
  extensions at the end of the path, without regard to case.
\<close>

definition STATIC_EXTENSIONS :: "string list" where
  "STATIC_EXTENSIONS =
     [''js'', ''css'', ''png'', ''jpg'', ''jpeg'', ''gif'', ''svg'', ''ico'', ''woff'', ''woff2'',
      ''ttf'', ''eot'', ''map'', ''json'', ''txt'', ''pdf'', ''mp4'', ''webm'', ''webp'', ''avif'']"

definition isStaticAsset :: "string \<Rightarrow> bool" where
  "isStaticAsset path =
     list_ex (\<lambda>ext. suffix (''.'' @ ext) (toLowerCase path)) STATIC_EXTENSIONS"

text \<open>
  \<^verbatim>\<open>/^\/sitemap-(markets|pillars)-\d+\.xml$/\<close>: after the prefix come one or more
  decimal digits and then \<^verbatim>\<open>.xml\<close>, up to the end of the path.
\<close>

definition isSitemapShard :: "string \<Rightarrow> bool" where
  "isSitemapShard path =
     list_ex (\<lambda>kind.
        let pre = ''/sitemap-'' @ kind @ ''-''
        in prefix pre path \<and>
           (let rest = drop (length pre) path
            in takeWhile isDigit rest \<noteq> [] \<and> dropWhile isDigit rest = ''.xml''))
       [''markets'', ''pillars'']"

record request =
  hostname :: string
  pathname :: string
  user_agent :: "string option"

text \<open>
  The three lookups of the dispatcher, as the calls they make. None of them passes more
  than headers in its \<open>init\<close>.
\<close>

definition generate_sitemap_call :: "Env \<Rightarrow> string \<Rightarrow> fetch_call" where
  "generate_sitemap_call env type =
     \<lparr>url = tmpl (SUPABASE_URL env) @ ''/functions/v1/generate-sitemap?type='' @ type,
      init_headers = auth_headers env,
      signal = None\<rparr>"

definition serve_sitemap_call :: "Env \<Rightarrow> string \<Rightarrow> fetch_call" where
  "serve_sitemap_call env filename =
     \<lparr>url = tmpl (SUPABASE_URL env) @ ''/functions/v1/serve-sitemap?file=''
              @ encodeURIComponent filename,
      init_headers = auth_headers env,
      signal = None\<rparr>"

definition prerender_call :: "Env \<Rightarrow> string \<Rightarrow> string \<Rightarrow> fetch_call" where
  "prerender_call env path userAgent =
     \<lparr>url = tmpl (SUPABASE_URL env) @ ''/functions/v1/prerender?path=''
              @ encodeURIComponent path,
      init_headers = auth_headers env @ [(''User-Agent'', userAgent)],
      signal = None\<rparr>"

text \<open>\<^verbatim>\<open>path.replace(/^\//, '')\<close>: one slash at the start is removed.\<close>

definition strip_leading_slash :: "string \<Rightarrow> string" where
  "strip_leading_slash path =
     (case path of [] \<Rightarrow> [] | c # rest \<Rightarrow> if c = CHR ''/'' then rest else path)"

text \<open>
  Each stage of the handler either ends the request (with the promise the handler then
  returns) or falls through to the next stage (\<open>None\<close>); it reports the outbound calls
  it made.

  Lines 172 to 198: the dynamic sitemaps.
\<close>

definition dynamicSitemap ::
  "Env \<Rightarrow> world \<Rightarrow> string \<Rightarrow> response promise option \<times> fetch_call list" where
  "dynamicSitemap env w path =
     (if path = ''/sitemap-markets.xml'' \<or> path = ''/sitemap-pillars.xml'' then
        (let type = (if str_includes path ''markets'' then ''markets'' else ''pillars'');
             call = generate_sitemap_call env type
         in case fetch w call of
              Pending \<Rightarrow> (Some Pending, [call])
            | Rejected \<Rightarrow> (None, [call])
            | Resolved resp \<Rightarrow>
                if ok resp then
                  (Some (Resolved
                     \<lparr>status = 200,
                      headers = [(''Content-Type'', ''application/xml; charset=utf-8''),
                                 (''Cache-Control'', ''public, max-age=3600, s-maxage=86400''),
                                 (''X-Sitemap-Source'', ''supabase'')],
                      body = body resp\<rparr>), [call])
                else (None, [call]))
      else (None, []))"

text \<open>Lines 200 to 226: the static sitemap shards and the index.\<close>

definition staticSitemap ::
  "Env \<Rightarrow> world \<Rightarrow> string \<Rightarrow> response promise option \<times> fetch_call list" where
  "staticSitemap env w path =
     (if isSitemapShard path \<or> path = ''/sitemap-index.xml'' then
        (let filename = strip_leading_slash path;
             call = serve_sitemap_call env filename
         in case fetch w call of
              Pending \<Rightarrow> (Some Pending, [call])
            | Rejected \<Rightarrow> (None, [call])
            | Resolved resp \<Rightarrow>
                if ok resp then
                  (Some (Resolved
                     \<lparr>status = 200,
                      headers = [(''Content-Type'', ''application/xml; charset=utf-8''),
                                 (''Cache-Control'', ''public, max-age=1800, s-maxage=3600''),
                                 (''X-Sitemap-Source'', ''supabase-static'')],
                      body = body resp\<rparr>), [call])
                else (None, [call]))
      else (None, []))"

text \<open>Lines 228 to 255: a bot is served the prerendered page when the lookup succeeds.\<close>

definition botPrerender ::
  "Env \<Rightarrow> world \<Rightarrow> string \<Rightarrow> string \<Rightarrow> string \<times> string
     \<Rightarrow> response promise option \<times> fetch_call list" where
  "botPrerender env w path userAgent scripts =
     (if isBot userAgent then
        (let call = prerender_call env path userAgent
         in case fetch w call of
              Pending \<Rightarrow> (Some Pending, [call])
            | Rejected \<Rightarrow> (None, [call])
            | Resolved res \<Rightarrow>
                if ok res then
                  (let html = injectScripts (body res) scripts;
                       xcache = or_empty (Headers_get (headers res) ''X-Cache'')
                   in (Some (Resolved
                        \<lparr>status = 200,
                         headers = [(''Content-Type'', ''text/html; charset=utf-8''),
                                    (''X-Prerendered'', ''true''),
                                    (''X-Scripts-Injected'', ''true''),
                                    (''X-Cache'', if xcache \<noteq> [] then xcache else ''hit''),
                                    (''Cache-Control'', ''public, max-age=3600'')],
                         body = html\<rparr>), [call]))
                else (None, [call]))
      else (None, []))"

text \<open>Lines 257 to 274: the origin serves the application, scripts go into its HTML.\<close>

definition serveSpa :: "world \<Rightarrow> string \<times> string \<Rightarrow> response promise" where
  "serveSpa w scripts =
     (case next w of
        Pending \<Rightarrow> Pending
      | Rejected \<Rightarrow> Rejected
      | Resolved response \<Rightarrow>
          (let contentType = or_empty (Headers_get (headers response) ''Content-Type'')
           in if \<not> str_includes contentType ''text/html'' then Resolved response
              else (let html = injectScripts (body response) scripts
                    in Resolved
                         \<lparr>status = status response,
                          headers = AList.update ''X-Scripts-Injected'' ''true''
                                      (Object_fromEntries (Headers_entries (headers response))),
                          body = html\<rparr>)))"

text \<open>
  The handler. Besides the promise it returns, the model returns the value of
  \<open>scriptCache\<close> after the request and the outbound backend calls, in the order they were
  made. The clock has one value during a request.
\<close>

definition onRequest ::
  "Env \<Rightarrow> world \<Rightarrow> ScriptCache option \<Rightarrow> request
     \<Rightarrow> response promise \<times> ScriptCache option \<times> fetch_call list" where
  "onRequest env w scriptCache req =
     (let path = pathname req;
          userAgent = or_empty (user_agent req)
      in if isStaticAsset path then (next w, scriptCache, [])
         else if path = ''/__debug'' then
           (Resolved
              \<lparr>status = 200,
               headers = [(''Content-Type'', ''application/json'')],
               body = JSON_stringify w
                 \<lparr>dbg_middleware = ''pages-middleware'',
                  dbg_version = ''2.0.0'',
                  dbg_hasSupabaseUrl = truthy (SUPABASE_URL env),
                  dbg_hasSupabaseKey = truthy (SUPABASE_ANON_KEY env),
                  dbg_hostname = hostname req,
                  dbg_userAgent = take 80 userAgent,
                  dbg_isBot = isBot userAgent,
                  dbg_scriptCacheAge =
                    (case scriptCache of
                       None \<Rightarrow> None
                     | Some c \<Rightarrow> Some ((now w - fetchedAt c + 500) div 1000)),
                  dbg_timestamp = now w\<rparr>\<rparr>,
            scriptCache, [])
         else
           (case getScripts env w scriptCache of
              (Pending, cache', calls0) \<Rightarrow> (Pending, cache', calls0)
            | (Rejected, cache', calls0) \<Rightarrow> (Rejected, cache', calls0)
            | (Resolved scripts, cache', calls0) \<Rightarrow>
                (case dynamicSitemap env w path of
                   (Some r, calls1) \<Rightarrow> (r, cache', calls0 @ calls1)
                 | (None, calls1) \<Rightarrow>
                     (case staticSitemap env w path of
                        (Some r, calls2) \<Rightarrow> (r, cache', calls0 @ calls1 @ calls2)
                      | (None, calls2) \<Rightarrow>
                          (case botPrerender env w path userAgent scripts of
                             (Some r, calls3) \<Rightarrow>
                               (r, cache', calls0 @ calls1 @ calls2 @ calls3)
                           | (None, calls3) \<Rightarrow>
                               (serveSpa w scripts, cache',
                                calls0 @ calls1 @ calls2 @ calls3))))))"


section \<open>Prerender edge function (the cache lookup behind \<open>/functions/v1/prerender\<close>)\<close>

text \<open>
  A row of the table \<open>prerendered_pages\<close>, with the three columns the function selects.
  Timestamps are in milliseconds, as \<^verbatim>\<open>new Date(...)\<close> compares them.
\<close>

record page_row =
  html :: string
  expires_at :: "int option"
  hit_count :: "int option"

record edge_request =
  http_method :: string
  path_param :: "string option"

text \<open>
  What surrounds one invocation of the function: the table (\<open>path\<close> is a unique key),
  the clock, whether something inside the \<^verbatim>\<open>try\<close> block throws (with the message the
  handler reports), whether the lookup query answers with an error, whether the update of
  the hit count fails, and \<^verbatim>\<open>JSON.stringify\<close> on an object of strings.
\<close>

record edge_world =
  prerendered_pages :: "string \<rightharpoonup> page_row"
  clock :: int
  thrown :: "string option"
  select_error :: bool
  update_error :: bool
  stringify :: "(string \<times> string) list \<Rightarrow> string"

definition corsHeaders :: header_list where
  "corsHeaders =
     [(''Access-Control-Allow-Origin'', ''*''),
      (''Access-Control-Allow-Headers'',
       ''authorization, x-client-info, apikey, content-type'')]"

definition cache_miss :: "edge_world \<Rightarrow> string \<Rightarrow> response" where
  "cache_miss w path =
     \<lparr>status = 404,
      headers = corsHeaders @ [(''Content-Type'', ''application/json''), (''X-Cache'', ''miss'')],
      body = stringify w [(''error'', ''not_cached''), (''path'', path)]\<rparr>"

text \<open>
  The handler returns its response and the table as the request leaves it. The update of
  the hit count is started and not awaited: the query resolves with its error as a value,
  and the callback \<^verbatim>\<open>() => {}\<close> drops it.
\<close>

definition prerender :: "edge_world \<Rightarrow> edge_request \<Rightarrow> response \<times> (string \<rightharpoonup> page_row)" where
  "prerender w req =
     (if http_method req = ''OPTIONS'' then
        (\<lparr>status = 200, headers = corsHeaders, body = []\<rparr>, prerendered_pages w)
      else case thrown w of
        Some message \<Rightarrow>
          (\<lparr>status = 500,
            headers = corsHeaders @ [(''Content-Type'', ''application/json'')],
            body = stringify w [(''error'', message)]\<rparr>, prerendered_pages w)
      | None \<Rightarrow>
          (let path = (case path_param req of
                         None \<Rightarrow> ''/''
                       | Some p \<Rightarrow> if p = [] then ''/'' else p);
               cached = (if select_error w then None else prerendered_pages w path)
           in case cached of
                None \<Rightarrow> (cache_miss w path, prerendered_pages w)
              | Some row \<Rightarrow>
                  if html row \<noteq> [] then
                    (let isExpired = (case expires_at row of
                                        None \<Rightarrow> False
                                      | Some e \<Rightarrow> e < clock w);
                         count = (case hit_count row of None \<Rightarrow> 0 | Some n \<Rightarrow> n) + 1;
                         pages' = (if update_error w then prerendered_pages w
                                   else (prerendered_pages w)
                                          (path \<mapsto> row\<lparr>hit_count := Some count\<rparr>))
                     in (\<lparr>status = 200,
                          headers = corsHeaders @
                            [(''Content-Type'', ''text/html; charset=utf-8''),
                             (''X-Prerendered'', ''true''),
                             (''X-Cache'', if isExpired then ''stale'' else ''hit''),
                             (''Cache-Control'', ''public, max-age=3600, s-maxage=86400'')],
                          body = html row\<rparr>, pages'))
                  else (cache_miss w path, prerendered_pages w)))"


section \<open>Static sitemap edge function (the lookup behind \<open>/functions/v1/serve-sitemap\<close>)\<close>

text \<open>
  When the table \<open>static_sitemaps\<close> has no content for the file name, the function
  answers 404 with an empty \<open>urlset\<close> document.
\<close>

definition EMPTY_URLSET :: string where
  \<open>EMPTY_URLSET = ''<?xml version="1.0" encoding="UTF-8"?><urlset xmlns="http://www.sitemaps.org/schemas/sitemap/0.9"></urlset>''\<close>

definition sitemap_not_found :: response where
  "sitemap_not_found =
     \<lparr>status = 404,
      headers = corsHeaders @ [(''Content-Type'', ''application/xml; charset=utf-8'')],
      body = EMPTY_URLSET\<rparr>"


section \<open>Concrete scenarios\<close>

text \<open>
  A deployment, a script registry with one head fragment, an origin that answers every
  page path with the shell of the application, and a network in which the script service,
  the static sitemap lookup of \<open>sitemap-index.xml\<close> and the page lookup of \<open>/about\<close>
  have the given outcomes and every other call fails.
\<close>

definition demo_env :: Env where
  "demo_env = \<lparr>SUPABASE_URL = Some ''https://db.example.co'', SUPABASE_ANON_KEY = Some ''anon''\<rparr>"

definition registry_json :: string where
  \<open>registry_json = ''{"head":["<script src=/a.js></script>"],"body":[]}''\<close>

definition registry :: registry_doc where
  "registry =
     \<lparr>json_head = Some (Fragments [''<script src=/a.js></script>'']),
      json_body = Some (Fragments [])\<rparr>"

text \<open>
  An answer of the script service in which \<^verbatim>\<open>head\<close> is the fragment itself, a string,
  and not an array of fragments.
\<close>

definition malformed_json :: string where
  \<open>malformed_json = ''{"head":"<script src=/a.js></script>","body":[]}''\<close>

definition malformed :: registry_doc where
  "malformed = \<lparr>json_head = Some NotAnArray, json_body = Some (Fragments [])\<rparr>"

definition malformed_response :: response where
  "malformed_response =
     \<lparr>status = 200, headers = [(''content-type'', ''application/json'')], body = malformed_json\<rparr>"

definition registry_response :: response where
  "registry_response =
     \<lparr>status = 200, headers = [(''content-type'', ''application/json'')], body = registry_json\<rparr>"

definition spa_shell :: response where
  "spa_shell =
     \<lparr>status = 200,
      headers = [(''content-type'', ''text/html; charset=utf-8''), (''etag'', ''v1'')],
      body = ''<html><head><title>App</title></head><body><div id=root></div></body></html>''\<rparr>"

text \<open>A page of the origin that sets two cookies.\<close>

definition login_page :: response where
  "login_page =
     \<lparr>status = 200,
      headers = [(''content-type'', ''text/html''), (''set-cookie'', ''sid=1''),
                 (''set-cookie'', ''theme=dark'')],
      body = ''<html><head></head><body>Welcome</body></html>''\<rparr>"

definition demo_net ::
  "response promise \<Rightarrow> response promise \<Rightarrow> response promise \<Rightarrow> fetch_call \<Rightarrow> response promise" where
  "demo_net registry_outcome sitemap_outcome page_outcome call =
     (if url call = ''https://db.example.co/functions/v1/script-service''
        then registry_outcome
      else if url call = ''https://db.example.co/functions/v1/serve-sitemap?file=sitemap-index.xml''
        then sitemap_outcome
      else if url call = ''https://db.example.co/functions/v1/prerender?path=%2Fabout''
        then page_outcome
      else Rejected)"

definition demo_world :: "int \<Rightarrow> (fetch_call \<Rightarrow> response promise) \<Rightarrow> response promise \<Rightarrow> world" where
  "demo_world t net origin =
     \<lparr>now = t, fetch = net, next = origin,
      JSON_parse = (\<lambda>text. if text = registry_json then Some registry
                           else if text = malformed_json then Some malformed
                           else None),
      JSON_stringify = (\<lambda>info. [])\<rparr>"

definition old_cache :: ScriptCache where
  "old_cache =
     \<lparr>cache_head = Fragments [''<script>old()</script>''], cache_body = Fragments [],
      fetchedAt = 0\<rparr>"

definition demo_request :: "string \<Rightarrow> string option \<Rightarrow> request" where
  "demo_request path ua = \<lparr>hostname = ''www.example.com'', pathname = path, user_agent = ua\<rparr>"

definition googlebot_ua :: string where
  "googlebot_ua = ''Mozilla/5.0 (compatible; Googlebot/2.1; +http://www.google.com/bot.html)''"

definition browser_ua :: string where
  "browser_ua = ''Mozilla/5.0 (X11; Linux x86_64; rv:120.0) Gecko/20100101 Firefox/120.0''"

text \<open>
  The cache table with one page, \<open>/about\<close>, that expires at time 1000 and was served
  four times, seen at a given time and with a given fate of the hit-count update.
\<close>

definition about_row :: page_row where
  "about_row = \<lparr>html = ''<html><head></head><body>About</body></html>'',
                 expires_at = Some 1000, hit_count = Some 4\<rparr>"

definition demo_edge :: "int \<Rightarrow> bool \<Rightarrow> edge_world" where
  "demo_edge t update_fails =
     \<lparr>prerendered_pages = [''/about'' \<mapsto> about_row], clock = t, thrown = None,
      select_error = False, update_error = update_fails, stringify = (\<lambda>fields. [])\<rparr>"

definition get_about :: edge_request where
  "get_about = \<lparr>http_method = ''GET'', path_param = Some ''/about''\<rparr>"




section \<open>Properties of the bot classifier\<close>

lemma str_includes_sublist: "str_includes s t = sublist t s"
  by (induction s) (auto simp: sublist_Cons_right)

lemma str_includes_append: "str_includes s t \<longleftrightarrow> (\<exists>pre post. s = pre @ t @ post)"
  by (simp add: str_includes_sublist sublist_def)

lemma toLowerCase_append: "toLowerCase (a @ b) = toLowerCase a @ toLowerCase b"
  by (simp add: toLowerCase_def)

lemma toLowerCase_Nil_iff: "toLowerCase s = [] \<longleftrightarrow> s = []"
  by (simp add: toLowerCase_def)

lemma BOT_AGENTS_nonempty: "[] \<notin> set BOT_AGENTS"
  by (simp add: BOT_AGENTS_def)

lemma isBot_contains:
  "isBot ua \<longleftrightarrow> (\<exists>bot \<in> set BOT_AGENTS. \<exists>pre post. toLowerCase ua = pre @ bot @ post)"
proof (cases "ua = []")
  case True
  have "\<not> (\<exists>bot \<in> set BOT_AGENTS. \<exists>pre post. [] = pre @ bot @ post)"
    using BOT_AGENTS_nonempty by auto
  with True show ?thesis
    by (simp add: isBot_def toLowerCase_def)
next
  case False
  then show ?thesis
    by (simp add: isBot_def list_ex_iff str_includes_append)
qed

text \<open>
  C4. For every User-Agent string, \<open>isBot\<close> is true exactly when the lowercased string
  contains an entry of the bot-agent list as a substring. In particular it is true for a
  string that contains an entry in any combination of upper and lower case (a word \<open>w\<close>
  whose lowercase form is an entry, anywhere in the string), false for the empty string,
  and false for a string whose lowercase form contains none of the entries.
\<close>

theorem isBot_iff_lowercase_contains_bot_agent:
  "(isBot ua \<longleftrightarrow>
      (\<exists>bot \<in> set BOT_AGENTS. \<exists>pre post. toLowerCase ua = pre @ bot @ post))
   \<and> (\<forall>w pre post. toLowerCase w \<in> set BOT_AGENTS \<longrightarrow> isBot (pre @ w @ post))
   \<and> \<not> isBot []
   \<and> ((\<forall>bot \<in> set BOT_AGENTS. \<not> sublist bot (toLowerCase ua)) \<longrightarrow> \<not> isBot ua)"
proof (intro conjI allI impI)
  show "isBot ua \<longleftrightarrow>
      (\<exists>bot \<in> set BOT_AGENTS. \<exists>pre post. toLowerCase ua = pre @ bot @ post)"
    by (rule isBot_contains)
next
  fix w pre post
  assume w: "toLowerCase w \<in> set BOT_AGENTS"
  have "toLowerCase (pre @ w @ post) = toLowerCase pre @ toLowerCase w @ toLowerCase post"
    by (simp add: toLowerCase_append)
  with w show "isBot (pre @ w @ post)"
    unfolding isBot_contains by blast
next
  show "\<not> isBot []"
    by (simp add: isBot_def)
next
  assume none: "\<forall>bot \<in> set BOT_AGENTS. \<not> sublist bot (toLowerCase ua)"
  show "\<not> isBot ua"
  proof
    assume "isBot ua"
    then obtain bot pre post
      where "bot \<in> set BOT_AGENTS" and "toLowerCase ua = pre @ bot @ post"
      unfolding isBot_contains by blast
    then have "bot \<in> set BOT_AGENTS \<and> sublist bot (toLowerCase ua)"
      by (auto simp: sublist_def)
    with none show False by blast
  qed
qed

text \<open>
  The theorem at two concrete headers: a crawler that spells its name in mixed case, and
  an ordinary browser, whose lowercase form contains no entry of the list.
\<close>

theorem isBot_iff_lowercase_contains_bot_agent_witness:
  "isBot ''Mozilla/5.0 (compatible; GoogleBot/2.1)'' \<and>
   (\<exists>bot \<in> set BOT_AGENTS. \<exists>pre post.
       toLowerCase ''Mozilla/5.0 (X11; Linux x86_64) Firefox/120.0'' = pre @ bot @ post) = False"
proof -
  have low: "toLowerCase ''GoogleBot'' \<in> set BOT_AGENTS"
    by code_simp
  have human: "\<not> isBot ''Mozilla/5.0 (X11; Linux x86_64) Firefox/120.0''"
    by code_simp
  from isBot_iff_lowercase_contains_bot_agent
    [of "''Mozilla/5.0 (X11; Linux x86_64) Firefox/120.0''"]
  have iff: "isBot ''Mozilla/5.0 (X11; Linux x86_64) Firefox/120.0'' \<longleftrightarrow>
      (\<exists>bot \<in> set BOT_AGENTS. \<exists>pre post.
         toLowerCase ''Mozilla/5.0 (X11; Linux x86_64) Firefox/120.0'' = pre @ bot @ post)"
    and mixed: "\<forall>w pre post. toLowerCase w \<in> set BOT_AGENTS \<longrightarrow> isBot (pre @ w @ post)"
    by blast+
  from mixed low have "isBot (''Mozilla/5.0 (compatible; '' @ ''GoogleBot'' @ ''/2.1)'')"
    by blast
  then have "isBot ''Mozilla/5.0 (compatible; GoogleBot/2.1)''" by simp
  with iff human show ?thesis by simp
qed

section \<open>Properties of the script registry cache\<close>

text \<open>
  As long as the stored value and the answer of the script service are arrays,
  \<open>getScripts\<close> does what its comment says. A stored value that was fetched less than
  five minutes ago is returned (its fragments joined by newlines) without a backend call.
  Otherwise the script service is called once. When the call succeeds (an \<open>ok\<close> response
  whose body parses), the stored value and its timestamp are replaced and the new value is
  returned. When it fails (the fetch throws, the response is not \<open>ok\<close>, or the body does
  not parse), the stored value is kept and returned if there is one, and the pair of two
  empty strings is returned if there is none.
\<close>

lemma getScripts_on_arrays:
  "(\<forall>c scripts. scriptCache = Some c \<and> now w - fetchedAt c < CACHE_TTL_MS
          \<and> joined c = Some scripts
        \<longrightarrow> getScripts env w scriptCache = (Resolved scripts, Some c, []))
   \<and> ((scriptCache = None \<or> (\<exists>c. scriptCache = Some c \<and> CACHE_TTL_MS \<le> now w - fetchedAt c))
       \<longrightarrow> (\<forall>resp data scripts.
               fetch w (script_service_call env) = Resolved resp \<and> ok resp
                 \<and> JSON_parse w (body resp) = Some data
                 \<and> joined \<lparr>cache_head = or_empty_array (json_head data),
                            cache_body = or_empty_array (json_body data),
                            fetchedAt = now w\<rparr> = Some scripts
               \<longrightarrow> getScripts env w scriptCache =
                     (Resolved scripts,
                      Some \<lparr>cache_head = or_empty_array (json_head data),
                            cache_body = or_empty_array (json_body data),
                            fetchedAt = now w\<rparr>,
                      [script_service_call env]))
         \<and> ((fetch w (script_service_call env) = Rejected
                \<or> (\<exists>resp. fetch w (script_service_call env) = Resolved resp
                      \<and> (\<not> ok resp \<or> JSON_parse w (body resp) = None)))
               \<longrightarrow> (scriptCache = None
                      \<longrightarrow> getScripts env w scriptCache =
                            (Resolved ([], []), None, [script_service_call env]))
                 \<and> (\<forall>c scripts. scriptCache = Some c \<and> joined c = Some scripts
                      \<longrightarrow> getScripts env w scriptCache =
                            (Resolved scripts, Some c, [script_service_call env]))))"
  by (auto simp: getScripts_def stale_or_empty_def Let_def split: option.splits)

text \<open>
  The four cases on a stored value fetched at time 0: a call at one second (fresh), and
  calls at five minutes with a script service that answers, with one that is down, and
  with one that is down and nothing stored.
\<close>

lemma getScripts_example:
  "getScripts demo_env (demo_world 1000 (demo_net Rejected Rejected Rejected) Rejected)
       (Some old_cache)
     = (Resolved (''<script>old()</script>'', []), Some old_cache, [])
   \<and> getScripts demo_env
       (demo_world 300000 (demo_net (Resolved registry_response) Rejected Rejected) Rejected)
       (Some old_cache)
     = (Resolved (''<script src=/a.js></script>'', []),
        Some \<lparr>cache_head = Fragments [''<script src=/a.js></script>''],
              cache_body = Fragments [], fetchedAt = 300000\<rparr>,
        [script_service_call demo_env])
   \<and> getScripts demo_env (demo_world 300000 (demo_net Rejected Rejected Rejected) Rejected)
       (Some old_cache)
     = (Resolved (''<script>old()</script>'', []), Some old_cache, [script_service_call demo_env])
   \<and> getScripts demo_env (demo_world 300000 (demo_net Rejected Rejected Rejected) Rejected) None
     = (Resolved ([], []), None, [script_service_call demo_env])"
proof (intro conjI)
  show "getScripts demo_env (demo_world 1000 (demo_net Rejected Rejected Rejected) Rejected)
       (Some old_cache)
     = (Resolved (''<script>old()</script>'', []), Some old_cache, [])"
    by code_simp
  show "getScripts demo_env
       (demo_world 300000 (demo_net (Resolved registry_response) Rejected Rejected) Rejected)
       (Some old_cache)
     = (Resolved (''<script src=/a.js></script>'', []),
        Some \<lparr>cache_head = Fragments [''<script src=/a.js></script>''],
              cache_body = Fragments [], fetchedAt = 300000\<rparr>,
        [script_service_call demo_env])"
    by code_simp
  show "getScripts demo_env (demo_world 300000 (demo_net Rejected Rejected Rejected) Rejected)
       (Some old_cache)
     = (Resolved (''<script>old()</script>'', []), Some old_cache, [script_service_call demo_env])"
    by code_simp
  show "getScripts demo_env (demo_world 300000 (demo_net Rejected Rejected Rejected) Rejected) None
     = (Resolved ([], []), None, [script_service_call demo_env])"
    by code_simp
qed

text \<open>
  C6 says that every call of \<open>getScripts\<close> returns the fresh value, the newly fetched
  value, the previous value or the empty pair. The code does not check what the script
  service sends. A value was stored at time 0, and at five minutes the script service
  answers 200 with a document whose \<^verbatim>\<open>head\<close> is a string instead of an array of strings:
  the document is stored with the new timestamp, joining it throws inside the
  \<^verbatim>\<open>try\<close> block and again at the end of the function, and the promise of
  \<open>getScripts\<close> is rejected; neither the new nor the previous value is returned. The
  stored document is then fresh, so a call one millisecond later is rejected too, without
  a backend call.
\<close>

theorem malformed_registry_answer_is_stored_and_getScripts_rejects:
  "getScripts demo_env
       (demo_world 300000 (demo_net (Resolved malformed_response) Rejected Rejected) Rejected)
       (Some old_cache)
     = (Rejected,
        Some \<lparr>cache_head = NotAnArray, cache_body = Fragments [], fetchedAt = 300000\<rparr>,
        [script_service_call demo_env])
   \<and> getScripts demo_env
       (demo_world 300001 (demo_net (Resolved registry_response) Rejected Rejected) Rejected)
       (Some \<lparr>cache_head = NotAnArray, cache_body = Fragments [], fetchedAt = 300000\<rparr>)
     = (Rejected,
        Some \<lparr>cache_head = NotAnArray, cache_body = Fragments [], fetchedAt = 300000\<rparr>,
        [])"
proof (intro conjI)
  show "getScripts demo_env
       (demo_world 300000 (demo_net (Resolved malformed_response) Rejected Rejected) Rejected)
       (Some old_cache)
     = (Rejected,
        Some \<lparr>cache_head = NotAnArray, cache_body = Fragments [], fetchedAt = 300000\<rparr>,
        [script_service_call demo_env])"
    by code_simp
  show "getScripts demo_env
       (demo_world 300001 (demo_net (Resolved registry_response) Rejected Rejected) Rejected)
       (Some \<lparr>cache_head = NotAnArray, cache_body = Fragments [], fetchedAt = 300000\<rparr>)
     = (Rejected,
        Some \<lparr>cache_head = NotAnArray, cache_body = Fragments [], fetchedAt = 300000\<rparr>,
        [])"
    by code_simp
qed

text \<open>
  C10. When a refresh fails (the fetch throws or the response is not \<open>ok\<close>) while a value
  is stored, the stored fragments and the timestamp \<open>fetchedAt\<close> are unchanged, so every
  later call after the expiry of the five minutes calls the script service again.
\<close>

theorem failed_refresh_keeps_cache_and_is_retried:
  "scriptCache = Some c \<and> CACHE_TTL_MS \<le> now w - fetchedAt c
   \<and> (fetch w (script_service_call env) = Rejected
        \<or> (\<exists>resp. fetch w (script_service_call env) = Resolved resp \<and> \<not> ok resp))
   \<longrightarrow> fst (snd (getScripts env w scriptCache)) = Some c
     \<and> (\<forall>w'. CACHE_TTL_MS \<le> now w' - fetchedAt c
           \<longrightarrow> snd (snd (getScripts env w' (fst (snd (getScripts env w scriptCache)))))
                 = [script_service_call env])"
  by (auto simp: getScripts_def Let_def split: option.splits promise.splits)

text \<open>
  A refresh at five minutes that is answered with status 404 leaves the stored value as it
  was, and the call a millisecond later asks the script service again.
\<close>

theorem failed_refresh_keeps_cache_and_is_retried_witness:
  "fst (snd (getScripts demo_env
        (demo_world 300000 (demo_net (Resolved sitemap_not_found) Rejected Rejected) Rejected)
        (Some old_cache))) = Some old_cache
   \<and> snd (snd (getScripts demo_env
        (demo_world 300001 (demo_net (Resolved registry_response) Rejected Rejected) Rejected)
        (fst (snd (getScripts demo_env
           (demo_world 300000 (demo_net (Resolved sitemap_not_found) Rejected Rejected) Rejected)
           (Some old_cache))))))
     = [script_service_call demo_env]"
proof -
  let ?w = "demo_world 300000 (demo_net (Resolved sitemap_not_found) Rejected Rejected) Rejected"
  let ?w' = "demo_world 300001 (demo_net (Resolved registry_response) Rejected Rejected) Rejected"
  have stale: "CACHE_TTL_MS \<le> now ?w - fetchedAt old_cache"
    "CACHE_TTL_MS \<le> now ?w' - fetchedAt old_cache"
    by (simp_all add: demo_world_def old_cache_def CACHE_TTL_MS_def)
  have bad: "fetch ?w (script_service_call demo_env) = Resolved sitemap_not_found"
    "\<not> ok sitemap_not_found"
    by (simp_all add: demo_world_def demo_net_def script_service_call_def demo_env_def tmpl_def
          ok_def sitemap_not_found_def)
  from failed_refresh_keeps_cache_and_is_retried [of "Some old_cache" old_cache ?w demo_env]
    stale bad
  show ?thesis by blast
qed

section \<open>Properties of the prerender edge function\<close>

lemma lower_names:
  "toLowerCase ''X-Cache'' = ''x-cache''"
  "toLowerCase ''Access-Control-Allow-Origin'' = ''access-control-allow-origin''"
  "toLowerCase ''Access-Control-Allow-Headers'' = ''access-control-allow-headers''"
  "toLowerCase ''Content-Type'' = ''content-type''"
  "toLowerCase ''X-Prerendered'' = ''x-prerendered''"
  "toLowerCase ''Cache-Control'' = ''cache-control''"
  by code_simp+

lemma prerender_hit_response:
  assumes "http_method req \<noteq> ''OPTIONS''" and "thrown w = None" and "\<not> select_error w"
    and "path_param req = Some path" and "path \<noteq> []"
    and "prerendered_pages w path = Some row" and "html row \<noteq> []"
  shows "fst (prerender w req) =
      \<lparr>status = 200,
       headers = corsHeaders @
          [(''Content-Type'', ''text/html; charset=utf-8''),
           (''X-Prerendered'', ''true''),
           (''X-Cache'', if (case expires_at row of None \<Rightarrow> False | Some e \<Rightarrow> e < clock w)
                         then ''stale'' else ''hit''),
           (''Cache-Control'', ''public, max-age=3600, s-maxage=86400'')],
       body = html row\<rparr>"
  using assms by (simp add: prerender_def Let_def)

lemma X_Cache_of_hit_headers:
  "Headers_get (corsHeaders @
          [(''Content-Type'', ct), (''X-Prerendered'', xp), (''X-Cache'', v), (''Cache-Control'', cc)])
      ''X-Cache'' = Some v"
  by (simp add: Headers_get_def header_values_def corsHeaders_def lower_names)

text \<open>
  C5. A page lookup of a path whose stored entry has non-empty HTML is answered with
  status 200 and the stored HTML as body; the cache state in the header \<open>X-Cache\<close> is
  \<open>hit\<close> when the entry has no expiry or the expiry lies in the future, and \<open>stale\<close> when
  the expiry lies in the past. (A page lookup is a request other than the \<open>OPTIONS\<close>
  preflight, handled without an exception, whose query returns the entry.)
\<close>

theorem prerender_known_path_hit_or_stale:
  "http_method req \<noteq> ''OPTIONS'' \<and> thrown w = None \<and> \<not> select_error w
     \<and> path_param req = Some path \<and> path \<noteq> []
     \<and> prerendered_pages w path = Some row \<and> html row \<noteq> []
   \<longrightarrow> status (fst (prerender w req)) = 200
       \<and> body (fst (prerender w req)) = html row
       \<and> ((expires_at row = None \<or> (\<exists>e. expires_at row = Some e \<and> clock w < e))
            \<longrightarrow> Headers_get (headers (fst (prerender w req))) ''X-Cache'' = Some ''hit'')
       \<and> ((\<exists>e. expires_at row = Some e \<and> e < clock w)
            \<longrightarrow> Headers_get (headers (fst (prerender w req))) ''X-Cache'' = Some ''stale'')"
proof (intro impI)
  assume a: "http_method req \<noteq> ''OPTIONS'' \<and> thrown w = None \<and> \<not> select_error w
     \<and> path_param req = Some path \<and> path \<noteq> []
     \<and> prerendered_pages w path = Some row \<and> html row \<noteq> []"
  have r: "fst (prerender w req) =
      \<lparr>status = 200,
       headers = corsHeaders @
          [(''Content-Type'', ''text/html; charset=utf-8''),
           (''X-Prerendered'', ''true''),
           (''X-Cache'', if (case expires_at row of None \<Rightarrow> False | Some e \<Rightarrow> e < clock w)
                         then ''stale'' else ''hit''),
           (''Cache-Control'', ''public, max-age=3600, s-maxage=86400'')],
       body = html row\<rparr>"
    using a prerender_hit_response [of req w path row] by simp
  show "status (fst (prerender w req)) = 200
       \<and> body (fst (prerender w req)) = html row
       \<and> ((expires_at row = None \<or> (\<exists>e. expires_at row = Some e \<and> clock w < e))
            \<longrightarrow> Headers_get (headers (fst (prerender w req))) ''X-Cache'' = Some ''hit'')
       \<and> ((\<exists>e. expires_at row = Some e \<and> e < clock w)
            \<longrightarrow> Headers_get (headers (fst (prerender w req))) ''X-Cache'' = Some ''stale'')"
    unfolding r by (auto simp: X_Cache_of_hit_headers)
qed

text \<open>The page \<open>/about\<close>, which expires at time 1000, looked up at times 2000 and 500.\<close>

theorem prerender_known_path_hit_or_stale_witness:
  "status (fst (prerender (demo_edge 2000 False) get_about)) = 200
   \<and> body (fst (prerender (demo_edge 2000 False) get_about))
       = ''<html><head></head><body>About</body></html>''
   \<and> Headers_get (headers (fst (prerender (demo_edge 2000 False) get_about))) ''X-Cache''
       = Some ''stale''
   \<and> Headers_get (headers (fst (prerender (demo_edge 500 False) get_about))) ''X-Cache''
       = Some ''hit''"
  using prerender_known_path_hit_or_stale [of get_about "demo_edge 2000 False" "''/about''" about_row]
    prerender_known_path_hit_or_stale [of get_about "demo_edge 500 False" "''/about''" about_row]
  by (simp add: demo_edge_def get_about_def about_row_def)

text \<open>
  C9. The response of the prerender function is the same whether the update of the hit
  count fails or succeeds, for every request. On a successful page lookup the status is 200
  also when the update fails (the failure does not reach the \<^verbatim>\<open>catch\<close> block of the
  handler); the only difference is the table: unchanged after a failed update, the count
  of the entry raised by one after a successful one.
\<close>

theorem hit_count_update_never_reaches_the_response:
  "fst (prerender (w\<lparr>update_error := True\<rparr>) req) = fst (prerender (w\<lparr>update_error := False\<rparr>) req)
   \<and> (http_method req \<noteq> ''OPTIONS'' \<and> thrown w = None \<and> \<not> select_error w
        \<and> path_param req = Some path \<and> path \<noteq> []
        \<and> prerendered_pages w path = Some row \<and> html row \<noteq> []
       \<longrightarrow> status (fst (prerender (w\<lparr>update_error := True\<rparr>) req)) = 200
         \<and> snd (prerender (w\<lparr>update_error := True\<rparr>) req) = prerendered_pages w
         \<and> snd (prerender (w\<lparr>update_error := False\<rparr>) req) = (prerendered_pages w)(path \<mapsto> row\<lparr>hit_count := Some ((case hit_count row of None \<Rightarrow> 0 | Some n \<Rightarrow> n) + 1)\<rparr>))"
  by (auto simp: prerender_def Let_def cache_miss_def split: option.splits)

text \<open>The lookup of \<open>/about\<close> with a failing and with a succeeding update.\<close>

theorem hit_count_update_never_reaches_the_response_witness:
  "fst (prerender (demo_edge 2000 True) get_about) = fst (prerender (demo_edge 2000 False) get_about)
   \<and> status (fst (prerender (demo_edge 2000 True) get_about)) = 200
   \<and> snd (prerender (demo_edge 2000 True) get_about) ''/about'' = Some about_row
   \<and> snd (prerender (demo_edge 2000 False) get_about) ''/about''
       = Some (about_row\<lparr>hit_count := Some 5\<rparr>)"
proof -
  have t: "(demo_edge 2000 False)\<lparr>update_error := True\<rparr> = demo_edge 2000 True"
    "(demo_edge 2000 False)\<lparr>update_error := False\<rparr> = demo_edge 2000 False"
    by (simp_all add: demo_edge_def)
  have hyp: "http_method get_about \<noteq> ''OPTIONS'' \<and> thrown (demo_edge 2000 False) = None
      \<and> \<not> select_error (demo_edge 2000 False)
      \<and> path_param get_about = Some ''/about'' \<and> ''/about'' \<noteq> []
      \<and> prerendered_pages (demo_edge 2000 False) ''/about'' = Some about_row
      \<and> html about_row \<noteq> []"
    by (simp add: demo_edge_def get_about_def about_row_def)
  have count: "(case hit_count about_row of None \<Rightarrow> 0 | Some n \<Rightarrow> n) + 1 = 5"
    by (simp add: about_row_def)
  from hit_count_update_never_reaches_the_response
         [of "demo_edge 2000 False" get_about "''/about''" about_row] hyp
  have "fst (prerender (demo_edge 2000 True) get_about)
          = fst (prerender (demo_edge 2000 False) get_about)"
    and "status (fst (prerender (demo_edge 2000 True) get_about)) = 200"
    and "snd (prerender (demo_edge 2000 True) get_about) = prerendered_pages (demo_edge 2000 False)"
    and "snd (prerender (demo_edge 2000 False) get_about)
          = (prerendered_pages (demo_edge 2000 False))
              (''/about'' \<mapsto> about_row\<lparr>hit_count := Some 5\<rparr>)"
    unfolding t count by blast+
  then show ?thesis
    by (simp add: demo_edge_def)
qed

section \<open>Properties of headers\<close>

lemma toLowerCase_char_idem: "toLowerCase_char (toLowerCase_char c) = toLowerCase_char c"
proof -
  have lt: "(of_char c :: nat) < 256" by simp
  show ?thesis
    using lt by (auto simp: toLowerCase_char_def Let_def)
qed

lemma toLowerCase_idem: "toLowerCase (toLowerCase s) = toLowerCase s"
  by (simp add: toLowerCase_def toLowerCase_char_idem)

lemma header_values_lower: "header_values hs (toLowerCase n) = header_values hs n"
  by (simp add: header_values_def toLowerCase_idem)

lemma header_values_append:
  "header_values (hs @ hs') n = header_values hs n @ header_values hs' n"
  by (simp add: header_values_def)

lemma header_values_concat:
  "header_values (concat hss) n = concat (map (\<lambda>hs. header_values hs n) hss)"
  by (induction hss) (simp_all add: header_values_append, simp add: header_values_def)

lemma header_values_Nil_iff:
  "header_values hs n = [] \<longleftrightarrow> toLowerCase n \<notin> set (map (\<lambda>(k, v). toLowerCase k) hs)"
  by (induction hs) (auto simp: header_values_def)

lemma concat_select_distinct:
  "distinct ks \<Longrightarrow>
     concat (map (\<lambda>k. if k = a then g k else []) ks) = (if a \<in> set ks then g a else [])"
  by (induction ks) auto

text \<open>The entries of one name, as \<open>Headers_entries\<close> lists them.\<close>

lemma header_values_of_name:
  assumes "toLowerCase k = k"
  shows "header_values (if k = ''set-cookie'' then map (\<lambda>v. (k, v)) vs else [(k, j)]) n
           = (if k = toLowerCase n then (if k = ''set-cookie'' then vs else [j]) else [])"
  using assms by (auto simp: header_values_def comp_def filter_map)

lemma header_values_entries:
  "header_values (Headers_entries hs) n =
     (if toLowerCase n = ''set-cookie'' then header_values hs n
      else if header_values hs n = [] then []
      else [join '', '' (header_values hs n)])"
proof -
  let ?ks = "remdups (map (\<lambda>(k, v). toLowerCase k) hs)"
  let ?f = "\<lambda>k. if k = ''set-cookie'' then map (\<lambda>v. (k, v)) (header_values hs k)
                 else [(k, join '', '' (header_values hs k))]"
  let ?g = "\<lambda>k. if k = ''set-cookie'' then header_values hs k
                 else [join '', '' (header_values hs k)]"
  have lower: "toLowerCase k = k" if "k \<in> set ?ks" for k
    using that by (auto simp: toLowerCase_idem)
  have each: "header_values (?f k) n = (if k = toLowerCase n then ?g k else [])"
    if "k \<in> set ?ks" for k
    by (rule header_values_of_name) (rule lower [OF that])
  have "header_values (Headers_entries hs) n = concat (map (\<lambda>k. header_values (?f k) n) ?ks)"
    unfolding Headers_entries_def header_values_concat map_map comp_def ..
  also have "map (\<lambda>k. header_values (?f k) n) ?ks
               = map (\<lambda>k. if k = toLowerCase n then ?g k else []) ?ks"
    by (rule map_cong [OF refl]) (rule each)
  also have "concat (map (\<lambda>k. if k = toLowerCase n then ?g k else []) ?ks)
               = (if toLowerCase n \<in> set ?ks then ?g (toLowerCase n) else [])"
    by (rule concat_select_distinct) simp
  finally have eq: "header_values (Headers_entries hs) n
      = (if toLowerCase n \<in> set ?ks then ?g (toLowerCase n) else [])" .
  show ?thesis
  proof (cases "header_values hs n = []")
    case True
    then have "toLowerCase n \<notin> set ?ks"
      by (simp add: header_values_Nil_iff)
    with True show ?thesis
      unfolding eq by simp
  next
    case False
    then have "toLowerCase n \<in> set ?ks"
      by (simp add: header_values_Nil_iff)
    moreover have "header_values hs ''set-cookie'' = header_values hs n"
      if "toLowerCase n = ''set-cookie''"
      using header_values_lower [of hs n] that by simp
    ultimately show ?thesis
      unfolding eq using False by (auto simp: header_values_lower)
  qed
qed

lemma update_absent: "k \<notin> fst ` set al \<Longrightarrow> AList.update k v al = al @ [(k, v)]"
  by (induction al) auto

lemma fold_update_distinct:
  "distinct (map fst es) \<Longrightarrow> fst ` set es \<inter> fst ` set acc = {} \<Longrightarrow>
     fold (\<lambda>(k, v) obj. AList.update k v obj) es acc = acc @ es"
proof (induction es arbitrary: acc)
  case Nil
  then show ?case by simp
next
  case (Cons e es)
  obtain k v where e: "e = (k, v)" by (cases e)
  from Cons.prems have absent: "k \<notin> fst ` set acc"
    by (auto simp: e)
  have "fold (\<lambda>(k, v) obj. AList.update k v obj) (e # es) acc =
          fold (\<lambda>(k, v) obj. AList.update k v obj) es (acc @ [(k, v)])"
    by (simp add: e update_absent [OF absent])
  also have "\<dots> = (acc @ [(k, v)]) @ es"
    using Cons.prems by (intro Cons.IH) (auto simp: e)
  finally show ?case by (simp add: e)
qed

lemma distinct_concat_own_keys:
  "distinct ks \<Longrightarrow> (\<And>k. k \<in> set ks \<Longrightarrow> g k = [] \<or> g k = [k]) \<Longrightarrow>
     distinct (concat (map g ks)) \<and> set (concat (map g ks)) \<subseteq> set ks"
proof (induction ks)
  case Nil
  then show ?case by simp
next
  case (Cons k ks)
  then have ih: "distinct (concat (map g ks))" "set (concat (map g ks)) \<subseteq> set ks"
    by auto
  from Cons.prems have k: "g k = [] \<or> g k = [k]" and fresh: "k \<notin> set ks"
    by auto
  with ih show ?case by auto
qed

lemma entries_distinct:
  assumes "length (header_values hs ''set-cookie'') \<le> 1"
  shows "distinct (map fst (Headers_entries hs))"
proof -
  let ?ks = "remdups (map (\<lambda>(k, v). toLowerCase k) hs)"
  let ?g = "\<lambda>k. map fst (if k = ''set-cookie'' then map (\<lambda>v. (k, v)) (header_values hs k)
                            else [(k, join '', '' (header_values hs k))])"
  have one: "?g k = [] \<or> ?g k = [k]" for k
  proof (cases "k = ''set-cookie''")
    case True
    with assms show ?thesis
      by (cases "header_values hs ''set-cookie''") (auto simp: comp_def)
  next
    case False
    then show ?thesis by simp
  qed
  have "map fst (Headers_entries hs) = concat (map ?g ?ks)"
    by (simp add: Headers_entries_def map_concat comp_def)
  moreover have "distinct (concat (map ?g ?ks))"
    using distinct_concat_own_keys [of ?ks ?g] one by simp
  ultimately show ?thesis by simp
qed

lemma Object_fromEntries_entries:
  "length (header_values hs ''set-cookie'') \<le> 1 \<Longrightarrow>
     Object_fromEntries (Headers_entries hs) = Headers_entries hs"
  using fold_update_distinct [OF entries_distinct, of hs "[]"]
  by (simp add: Object_fromEntries_def)

lemma injected_name_lower: "toLowerCase ''X-Scripts-Injected'' = ''x-scripts-injected''"
  by code_simp

lemma set_cookie_lower: "toLowerCase ''set-cookie'' = ''set-cookie''"
  by code_simp

lemma entries_keys_lower: "k \<in> fst ` set (Headers_entries hs) \<Longrightarrow> toLowerCase k = k"
  by (auto simp: Headers_entries_def toLowerCase_idem set_cookie_lower split: if_splits)

lemma spa_headers:
  assumes "length (header_values hs ''set-cookie'') \<le> 1"
  shows "AList.update ''X-Scripts-Injected'' ''true'' (Object_fromEntries (Headers_entries hs))
     = Headers_entries hs @ [(''X-Scripts-Injected'', ''true'')]"
proof -
  have "''X-Scripts-Injected'' \<notin> fst ` set (Headers_entries hs)"
  proof
    assume "''X-Scripts-Injected'' \<in> fst ` set (Headers_entries hs)"
    then have "toLowerCase ''X-Scripts-Injected'' = ''X-Scripts-Injected''"
      by (rule entries_keys_lower)
    then show False by (simp add: injected_name_lower)
  qed
  then show ?thesis
    by (simp add: Object_fromEntries_entries [OF assms] update_absent)
qed

lemma Headers_get_entries: "Headers_get (Headers_entries hs) n = Headers_get hs n"
  by (simp add: Headers_get_def header_values_entries split: list.splits)

lemma spa_headers_other:
  assumes "length (header_values hs ''set-cookie'') \<le> 1"
    and n: "toLowerCase n \<noteq> ''x-scripts-injected''"
  shows "Headers_get (AList.update ''X-Scripts-Injected'' ''true''
        (Object_fromEntries (Headers_entries hs))) n = Headers_get hs n"
proof -
  have "header_values (Headers_entries hs @ [(''X-Scripts-Injected'', ''true'')]) n
          = header_values (Headers_entries hs) n"
    using n by (auto simp: header_values_append header_values_def injected_name_lower)
  then have "Headers_get (Headers_entries hs @ [(''X-Scripts-Injected'', ''true'')]) n
          = Headers_get (Headers_entries hs) n"
    by (simp add: Headers_get_def)
  then show ?thesis
    by (simp add: spa_headers [OF assms(1)] Headers_get_entries)
qed

lemma spa_headers_injected:
  assumes "length (header_values hs ''set-cookie'') \<le> 1"
  shows "Headers_get (AList.update ''X-Scripts-Injected'' ''true''
        (Object_fromEntries (Headers_entries hs))) ''X-Scripts-Injected''
     = Some (case Headers_get hs ''X-Scripts-Injected'' of
               None \<Rightarrow> ''true'' | Some v \<Rightarrow> v @ '', true'')"
proof -
  have ne: "toLowerCase ''X-Scripts-Injected'' \<noteq> ''set-cookie''"
    by (simp add: injected_name_lower)
  have "header_values (Headers_entries hs @ [(''X-Scripts-Injected'', ''true'')]) ''X-Scripts-Injected''
          = header_values (Headers_entries hs) ''X-Scripts-Injected'' @ [''true'']"
    by (simp add: header_values_append) (simp add: header_values_def)
  then show ?thesis
    using ne
    by (simp add: spa_headers [OF assms] Headers_get_def header_values_entries split: list.splits)
qed


section \<open>Properties of the dispatcher\<close>

lemma getScripts_calls:
  "c \<in> set (snd (snd (getScripts env w sc))) \<Longrightarrow> c = script_service_call env"
  by (auto simp: getScripts_def Let_def split: option.splits promise.splits if_splits)

lemma getScripts_pending:
  "c \<in> set (snd (snd (getScripts env w sc))) \<Longrightarrow> fetch w c = Pending \<Longrightarrow>
     fst (getScripts env w sc) = Pending"
  by (auto simp: getScripts_def Let_def split: option.splits promise.splits if_splits)

lemma dynamicSitemap_calls:
  "c \<in> set (snd (dynamicSitemap env w path)) \<Longrightarrow>
     signal c = None \<and> (fetch w c = Pending \<longrightarrow> fst (dynamicSitemap env w path) = Some Pending)"
  by (auto simp: dynamicSitemap_def Let_def generate_sitemap_call_def
           split: promise.splits if_splits)

lemma staticSitemap_calls:
  "c \<in> set (snd (staticSitemap env w path)) \<Longrightarrow>
     signal c = None \<and> (fetch w c = Pending \<longrightarrow> fst (staticSitemap env w path) = Some Pending)"
  by (auto simp: staticSitemap_def Let_def serve_sitemap_call_def
           split: promise.splits if_splits)

lemma botPrerender_calls:
  "c \<in> set (snd (botPrerender env w path ua scripts)) \<Longrightarrow>
     signal c = None \<and>
     (fetch w c = Pending \<longrightarrow> fst (botPrerender env w path ua scripts) = Some Pending)"
  by (auto simp: botPrerender_def Let_def prerender_call_def
           split: promise.splits if_splits)

text \<open>The handler on a path that is neither a static asset nor the debug endpoint.\<close>

lemma onRequest_pipeline:
  assumes "\<not> isStaticAsset (pathname req)" and "pathname req \<noteq> ''/__debug''"
  shows "onRequest env w sc req =
     (case getScripts env w sc of
        (Pending, cache', calls0) \<Rightarrow> (Pending, cache', calls0)
      | (Rejected, cache', calls0) \<Rightarrow> (Rejected, cache', calls0)
      | (Resolved scripts, cache', calls0) \<Rightarrow>
          (case dynamicSitemap env w (pathname req) of
             (Some r, calls1) \<Rightarrow> (r, cache', calls0 @ calls1)
           | (None, calls1) \<Rightarrow>
               (case staticSitemap env w (pathname req) of
                  (Some r, calls2) \<Rightarrow> (r, cache', calls0 @ calls1 @ calls2)
                | (None, calls2) \<Rightarrow>
                    (case botPrerender env w (pathname req) (or_empty (user_agent req)) scripts of
                       (Some r, calls3) \<Rightarrow> (r, cache', calls0 @ calls1 @ calls2 @ calls3)
                     | (None, calls3) \<Rightarrow>
                         (serveSpa w scripts, cache', calls0 @ calls1 @ calls2 @ calls3)))))"
  using assms by (simp add: onRequest_def Let_def)

lemma onRequest_response:
  assumes "\<not> isStaticAsset (pathname req)" and "pathname req \<noteq> ''/__debug''"
    and "fst (getScripts env w sc) = Resolved scripts"
  shows "fst (onRequest env w sc req) =
     (case fst (dynamicSitemap env w (pathname req)) of
        Some r \<Rightarrow> r
      | None \<Rightarrow>
          (case fst (staticSitemap env w (pathname req)) of
             Some r \<Rightarrow> r
           | None \<Rightarrow>
               (case fst (botPrerender env w (pathname req) (or_empty (user_agent req)) scripts) of
                  Some r \<Rightarrow> r
                | None \<Rightarrow> serveSpa w scripts)))"
  using assms(3) unfolding onRequest_pipeline [OF assms(1,2)]
  by (auto split: prod.splits promise.splits option.splits)




lemma serveSpa_resolved:
  "next w = Resolved origin \<Longrightarrow>
   serveSpa w scripts =
     (if \<not> str_includes (or_empty (Headers_get (headers origin) ''Content-Type'')) ''text/html''
      then Resolved origin
      else Resolved \<lparr>status = status origin,
                     headers = AList.update ''X-Scripts-Injected'' ''true''
                                 (Object_fromEntries (Headers_entries (headers origin))),
                     body = injectScripts (body origin) scripts\<rparr>)"
  by (simp add: serveSpa_def Let_def)

text \<open>
  Whenever the dispatcher reaches the origin fallback (no earlier stage answered) and the
  origin responds with at most one \<open>Set-Cookie\<close> header: if the \<open>Content-Type\<close> of the
  origin response contains \<open>text/html\<close>, the response has the status of the origin, the
  origin body with the scripts injected, for every header name other than
  \<open>X-Scripts-Injected\<close> the value the origin gave it, and \<open>X-Scripts-Injected\<close> with
  \<open>true\<close> added (the only value when the origin did not set this header itself).
  Otherwise the response is the origin response, unmodified.
\<close>

lemma origin_fallback_with_at_most_one_cookie:
  "\<not> isStaticAsset (pathname req) \<and> pathname req \<noteq> ''/__debug''
   \<and> fst (getScripts env w scriptCache) = Resolved scripts
   \<and> fst (dynamicSitemap env w (pathname req)) = None
   \<and> fst (staticSitemap env w (pathname req)) = None
   \<and> fst (botPrerender env w (pathname req) (or_empty (user_agent req)) scripts) = None
   \<and> next w = Resolved origin
   \<and> length (header_values (headers origin) ''set-cookie'') \<le> 1
   \<longrightarrow> (if str_includes (or_empty (Headers_get (headers origin) ''Content-Type'')) ''text/html''
        then (\<exists>r. fst (onRequest env w scriptCache req) = Resolved r
                \<and> status r = status origin
                \<and> body r = injectScripts (body origin) scripts
                \<and> (\<forall>name. toLowerCase name \<noteq> ''x-scripts-injected''
                      \<longrightarrow> Headers_get (headers r) name = Headers_get (headers origin) name)
                \<and> Headers_get (headers r) ''X-Scripts-Injected''
                    = Some (case Headers_get (headers origin) ''X-Scripts-Injected'' of
                              None \<Rightarrow> ''true'' | Some v \<Rightarrow> v @ '', true''))
        else fst (onRequest env w scriptCache req) = Resolved origin)"
proof (intro impI)
  assume a: "\<not> isStaticAsset (pathname req) \<and> pathname req \<noteq> ''/__debug''
   \<and> fst (getScripts env w scriptCache) = Resolved scripts
   \<and> fst (dynamicSitemap env w (pathname req)) = None
   \<and> fst (staticSitemap env w (pathname req)) = None
   \<and> fst (botPrerender env w (pathname req) (or_empty (user_agent req)) scripts) = None
   \<and> next w = Resolved origin
   \<and> length (header_values (headers origin) ''set-cookie'') \<le> 1"
  then have "fst (onRequest env w scriptCache req) = serveSpa w scripts"
    by (simp add: onRequest_response)
  with a have r: "fst (onRequest env w scriptCache req) =
     (if \<not> str_includes (or_empty (Headers_get (headers origin) ''Content-Type'')) ''text/html''
      then Resolved origin
      else Resolved \<lparr>status = status origin,
                     headers = AList.update ''X-Scripts-Injected'' ''true''
                                 (Object_fromEntries (Headers_entries (headers origin))),
                     body = injectScripts (body origin) scripts\<rparr>)"
    by (simp add: serveSpa_resolved)
  show "if str_includes (or_empty (Headers_get (headers origin) ''Content-Type'')) ''text/html''
        then (\<exists>r. fst (onRequest env w scriptCache req) = Resolved r
                \<and> status r = status origin
                \<and> body r = injectScripts (body origin) scripts
                \<and> (\<forall>name. toLowerCase name \<noteq> ''x-scripts-injected''
                      \<longrightarrow> Headers_get (headers r) name = Headers_get (headers origin) name)
                \<and> Headers_get (headers r) ''X-Scripts-Injected''
                    = Some (case Headers_get (headers origin) ''X-Scripts-Injected'' of
                              None \<Rightarrow> ''true'' | Some v \<Rightarrow> v @ '', true''))
        else fst (onRequest env w scriptCache req) = Resolved origin"
    unfolding r using a by (simp add: spa_headers_other spa_headers_injected)
qed

text \<open>
  A browser asks for \<open>/about\<close>: the shell of the application comes back with the head
  fragment of the registry and with its \<open>ETag\<close>; an origin response of type
  \<open>application/xml\<close> comes back as it is.
\<close>

lemma origin_fallback_example:
  "(\<exists>r. fst (onRequest demo_env
              (demo_world 0 (demo_net (Resolved registry_response) Rejected Rejected)
                 (Resolved spa_shell))
              None (demo_request ''/about'' (Some browser_ua))) = Resolved r
        \<and> status r = 200
        \<and> body r = ''<html><head><title>App</title><script src=/a.js></script>''
                      @ [CHR 0x0A] @ ''</head><body><div id=root></div></body></html>''
        \<and> Headers_get (headers r) ''ETag'' = Some ''v1''
        \<and> Headers_get (headers r) ''X-Scripts-Injected'' = Some ''true'')
   \<and> fst (onRequest demo_env
              (demo_world 0 (demo_net (Resolved registry_response) Rejected Rejected)
                 (Resolved sitemap_not_found))
              None (demo_request ''/about'' (Some browser_ua))) = Resolved sitemap_not_found"
proof -
  let ?net = "demo_net (Resolved registry_response) Rejected Rejected"
  let ?w = "demo_world 0 ?net (Resolved spa_shell)"
  let ?w' = "demo_world 0 ?net (Resolved sitemap_not_found)"
  let ?req = "demo_request ''/about'' (Some browser_ua)"
  let ?scripts = "(''<script src=/a.js></script>'', [])"
  have path: "\<not> isStaticAsset (pathname ?req) \<and> pathname ?req \<noteq> ''/__debug''"
    by code_simp
  have scripts: "fst (getScripts demo_env ?w None) = Resolved ?scripts"
    "fst (getScripts demo_env ?w' None) = Resolved ?scripts"
    by code_simp+
  have stages: "fst (dynamicSitemap demo_env ?w (pathname ?req)) = None"
    "fst (staticSitemap demo_env ?w (pathname ?req)) = None"
    "fst (botPrerender demo_env ?w (pathname ?req) (or_empty (user_agent ?req)) ?scripts) = None"
    "fst (dynamicSitemap demo_env ?w' (pathname ?req)) = None"
    "fst (staticSitemap demo_env ?w' (pathname ?req)) = None"
    "fst (botPrerender demo_env ?w' (pathname ?req) (or_empty (user_agent ?req)) ?scripts) = None"
    by code_simp+
  have origin: "next ?w = Resolved spa_shell" "next ?w' = Resolved sitemap_not_found"
    by (simp_all add: demo_world_def)
  have cookies: "length (header_values (headers spa_shell) ''set-cookie'') \<le> 1"
    "length (header_values (headers sitemap_not_found) ''set-cookie'') \<le> 1"
    by code_simp+
  have html: "str_includes (or_empty (Headers_get (headers spa_shell) ''Content-Type'')) ''text/html''"
    "\<not> str_includes (or_empty (Headers_get (headers sitemap_not_found) ''Content-Type'')) ''text/html''"
    by code_simp+
  have vals: "status spa_shell = 200"
    "injectScripts (body spa_shell) ?scripts
       = ''<html><head><title>App</title><script src=/a.js></script>''
           @ [CHR 0x0A] @ ''</head><body><div id=root></div></body></html>''"
    "toLowerCase ''ETag'' \<noteq> ''x-scripts-injected''"
    "Headers_get (headers spa_shell) ''ETag'' = Some ''v1''"
    "Headers_get (headers spa_shell) ''X-Scripts-Injected'' = None"
    by code_simp+
  from origin_fallback_with_at_most_one_cookie
         [of ?req demo_env ?w None ?scripts spa_shell] path scripts stages origin html cookies
  obtain r where r: "fst (onRequest demo_env ?w None ?req) = Resolved r"
      "status r = status spa_shell" "body r = injectScripts (body spa_shell) ?scripts"
      "\<forall>name. toLowerCase name \<noteq> ''x-scripts-injected''
          \<longrightarrow> Headers_get (headers r) name = Headers_get (headers spa_shell) name"
      "Headers_get (headers r) ''X-Scripts-Injected''
          = Some (case Headers_get (headers spa_shell) ''X-Scripts-Injected'' of
                    None \<Rightarrow> ''true'' | Some v \<Rightarrow> v @ '', true'')"
    by auto
  from r(4) vals(3) have "Headers_get (headers r) ''ETag'' = Headers_get (headers spa_shell) ''ETag''"
    by blast
  with r vals have first: "\<exists>r. fst (onRequest demo_env ?w None ?req) = Resolved r
        \<and> status r = 200
        \<and> body r = ''<html><head><title>App</title><script src=/a.js></script>''
                      @ [CHR 0x0A] @ ''</head><body><div id=root></div></body></html>''
        \<and> Headers_get (headers r) ''ETag'' = Some ''v1''
        \<and> Headers_get (headers r) ''X-Scripts-Injected'' = Some ''true''"
    by simp
  from origin_fallback_with_at_most_one_cookie
         [of ?req demo_env ?w' None ?scripts sitemap_not_found] path scripts stages origin html cookies
  have "fst (onRequest demo_env ?w' None ?req) = Resolved sitemap_not_found"
    by simp
  with first show ?thesis by blast
qed

text \<open>
  C8 says that an HTML response of the origin comes back with the scripts injected, its
  status and every origin header preserved, and \<open>X-Scripts-Injected\<close> added.
  \<^verbatim>\<open>Object.fromEntries\<close> keeps one value per key, and the \<open>Set-Cookie\<close> headers of a
  response are entries of their own with the same key: a page of the origin that sets the
  two cookies \<open>sid\<close> and \<open>theme\<close> comes back from the dispatcher with the cookie
  \<open>theme\<close> only.
\<close>

theorem repeated_set_cookie_headers_are_dropped:
  "Headers_get (headers login_page) ''Set-Cookie'' = Some ''sid=1, theme=dark''
   \<and> fst (onRequest demo_env
            (demo_world 0 (demo_net (Resolved registry_response) Rejected Rejected)
               (Resolved login_page))
            None (demo_request ''/login'' (Some browser_ua)))
       = Resolved
           \<lparr>status = 200,
            headers = [(''content-type'', ''text/html''), (''set-cookie'', ''theme=dark''),
                       (''X-Scripts-Injected'', ''true'')],
            body = ''<html><head><script src=/a.js></script>'' @ [CHR 0x0A]
                     @ ''</head><body>Welcome</body></html>''\<rparr>"
proof (intro conjI)
  show "Headers_get (headers login_page) ''Set-Cookie'' = Some ''sid=1, theme=dark''"
    by code_simp
  show "fst (onRequest demo_env
            (demo_world 0 (demo_net (Resolved registry_response) Rejected Rejected)
               (Resolved login_page))
            None (demo_request ''/login'' (Some browser_ua)))
       = Resolved
           \<lparr>status = 200,
            headers = [(''content-type'', ''text/html''), (''set-cookie'', ''theme=dark''),
                       (''X-Scripts-Injected'', ''true'')],
            body = ''<html><head><script src=/a.js></script>'' @ [CHR 0x0A]
                     @ ''</head><body>Welcome</body></html>''\<rparr>"
    by code_simp
qed




















text \<open>
  C2, as the specification states it, does not hold. The call to the script service is
  made without a timeout signal, and when the script service never answers, the handler
  never answers.
\<close>

theorem hung_script_service_hangs_the_response:
  "signal (script_service_call demo_env) = None
   \<and> onRequest demo_env
        (demo_world 0 (demo_net Pending Rejected Rejected) (Resolved spa_shell))
        None (demo_request ''/about'' (Some browser_ua))
       = (Pending, None, [script_service_call demo_env])"
proof (intro conjI)
  show "signal (script_service_call demo_env) = None"
    by (simp add: script_service_call_def)
  show "onRequest demo_env
        (demo_world 0 (demo_net Pending Rejected Rejected) (Resolved spa_shell))
        None (demo_request ''/about'' (Some browser_ua))
       = (Pending, None, [script_service_call demo_env])"
    by code_simp
qed

text \<open>
  C2, as the code has it. No outbound backend call of a request carries a timeout
  signal, and if one of the calls made never settles, the response of the dispatcher
  never settles either.
\<close>

theorem no_backend_call_has_a_timeout:
  "(\<forall>c \<in> set (snd (snd (onRequest env w scriptCache req))). signal c = None)
   \<and> ((\<exists>c \<in> set (snd (snd (onRequest env w scriptCache req))). fetch w c = Pending)
        \<longrightarrow> fst (onRequest env w scriptCache req) = Pending)"
proof (cases "isStaticAsset (pathname req) \<or> pathname req = ''/__debug''")
  case True
  then have "snd (snd (onRequest env w scriptCache req)) = []"
    by (auto simp: onRequest_def Let_def)
  then show ?thesis by simp
next
  case False
  then have reach: "\<not> isStaticAsset (pathname req)" "pathname req \<noteq> ''/__debug''"
    by simp_all
  obtain g cache' calls0 where g: "getScripts env w scriptCache = (g, cache', calls0)"
    by (cases "getScripts env w scriptCache") auto
  have c0: "signal c = None \<and> (fetch w c = Pending \<longrightarrow> g = Pending)" if "c \<in> set calls0" for c
    using that getScripts_calls [of c env w scriptCache] getScripts_pending [of c env w scriptCache]
    by (auto simp: g script_service_call_def)
  obtain d calls1 where d: "dynamicSitemap env w (pathname req) = (d, calls1)"
    by (cases "dynamicSitemap env w (pathname req)") auto
  have c1: "signal c = None \<and> (fetch w c = Pending \<longrightarrow> d = Some Pending)"
    if "c \<in> set calls1" for c
    using that dynamicSitemap_calls [of c env w "pathname req"] by (simp add: d)
  obtain s calls2 where s: "staticSitemap env w (pathname req) = (s, calls2)"
    by (cases "staticSitemap env w (pathname req)") auto
  have c2: "signal c = None \<and> (fetch w c = Pending \<longrightarrow> s = Some Pending)"
    if "c \<in> set calls2" for c
    using that staticSitemap_calls [of c env w "pathname req"] by (simp add: s)
  show ?thesis
  proof (cases g)
    case Pending
    with c0 show ?thesis
      unfolding onRequest_pipeline [OF reach] g by auto
  next
    case Rejected
    with c0 show ?thesis
      unfolding onRequest_pipeline [OF reach] g by auto
  next
    case (Resolved scripts)
    obtain b calls3
      where b: "botPrerender env w (pathname req) (or_empty (user_agent req)) scripts = (b, calls3)"
      by (cases "botPrerender env w (pathname req) (or_empty (user_agent req)) scripts") auto
    have c3: "signal c = None \<and> (fetch w c = Pending \<longrightarrow> b = Some Pending)"
      if "c \<in> set calls3" for c
      using that
        botPrerender_calls [of c env w "pathname req" "or_empty (user_agent req)" scripts]
      by (simp add: b)
    from Resolved c0 have c0': "signal c = None \<and> fetch w c \<noteq> Pending" if "c \<in> set calls0" for c
      using that by auto
    have eq: "onRequest env w scriptCache req =
        (case d of
           Some r \<Rightarrow> (r, cache', calls0 @ calls1)
         | None \<Rightarrow>
             (case s of
                Some r \<Rightarrow> (r, cache', calls0 @ calls1 @ calls2)
              | None \<Rightarrow>
                  (case b of
                     Some r \<Rightarrow> (r, cache', calls0 @ calls1 @ calls2 @ calls3)
                   | None \<Rightarrow> (serveSpa w scripts, cache', calls0 @ calls1 @ calls2 @ calls3))))"
      by (simp add: onRequest_pipeline [OF reach] g Resolved d s b split: option.splits)
    show ?thesis
    proof (cases d)
      case (Some r)
      with c0' c1 show ?thesis
        by (auto simp: eq)
    next
      case None
      note dn = this
      with c1 have c1': "signal c = None \<and> fetch w c \<noteq> Pending" if "c \<in> set calls1" for c
        using that by auto
      show ?thesis
      proof (cases s)
        case (Some r)
        with c0' c1' c2 show ?thesis
          by (auto simp: eq dn)
      next
        case None
        note sn = this
        with c2 have c2': "signal c = None \<and> fetch w c \<noteq> Pending" if "c \<in> set calls2" for c
          using that by auto
        show ?thesis
        proof (cases b)
          case (Some r)
          with c0' c1' c2' c3 show ?thesis
            by (auto simp: eq dn sn)
        next
          case None
          with c3 have c3': "signal c = None \<and> fetch w c \<noteq> Pending" if "c \<in> set calls3" for c
            using that by auto
          from None c0' c1' c2' c3' show ?thesis
            by (auto simp: eq dn sn)
        qed
      qed
    qed
  qed
qed

text \<open>Googlebot asks for \<open>/about\<close> while the script service never answers.\<close>

theorem no_backend_call_has_a_timeout_witness:
  "list_all (\<lambda>c. signal c = None)
      (snd (snd (onRequest demo_env
        (demo_world 0 (demo_net Pending Rejected Rejected) (Resolved spa_shell))
        None (demo_request ''/about'' (Some googlebot_ua)))))
   \<and> fst (onRequest demo_env
        (demo_world 0 (demo_net Pending Rejected Rejected) (Resolved spa_shell))
        None (demo_request ''/about'' (Some googlebot_ua))) = Pending"
proof -
  let ?w = "demo_world 0 (demo_net Pending Rejected Rejected) (Resolved spa_shell)"
  let ?req = "demo_request ''/about'' (Some googlebot_ua)"
  have calls: "snd (snd (onRequest demo_env ?w None ?req)) = [script_service_call demo_env]"
    by code_simp
  have hung: "fetch ?w (script_service_call demo_env) = Pending"
    by code_simp
  have ex: "\<exists>c \<in> set (snd (snd (onRequest demo_env ?w None ?req))). fetch ?w c = Pending"
    unfolding calls using hung by simp
  note t = no_backend_call_has_a_timeout [of demo_env ?w None ?req]
  from t [THEN conjunct1]
  have "list_all (\<lambda>c. signal c = None) (snd (snd (onRequest demo_env ?w None ?req)))"
    unfolding list_all_iff .
  with t [THEN conjunct2, THEN mp, OF ex] show ?thesis
    by (intro conjI)
qed

section \<open>Properties of the HTML injector\<close>

lemma GetSubstitution_without_dollar:
  "CHR ''$'' \<notin> set template \<Longrightarrow> GetSubstitution matched preceding following template = template"
  by (induction matched preceding following template rule: GetSubstitution.induct) auto

lemma split_first_Some:
  "split_first pat s = Some (p, f) \<Longrightarrow>
     s = p @ pat @ f \<and> (\<forall>p' f'. s = p' @ pat @ f' \<longrightarrow> length p \<le> length p')"
proof (induction s arbitrary: p f)
  case Nil
  then show ?case by (auto split: if_splits)
next
  case (Cons c s)
  show ?case
  proof (cases "prefix pat (c # s)")
    case True
    with Cons.prems have "p = []" and "f = drop (length pat) (c # s)" by auto
    with True show ?thesis
      by (auto simp: prefix_def)
  next
    case False
    with Cons.prems obtain p0 where p0: "split_first pat s = Some (p0, f)" and p: "p = c # p0"
      by (auto split: option.splits prod.splits)
    from Cons.IH [OF p0] have s: "s = p0 @ pat @ f"
      and least: "\<forall>p' f'. s = p' @ pat @ f' \<longrightarrow> length p0 \<le> length p'"
      by auto
    have "length p \<le> length p'" if occ: "c # s = p' @ pat @ f'" for p' f'
    proof (cases p')
      case Nil
      with occ have "prefix pat (c # s)" by (simp add: prefix_def)
      with False show ?thesis by simp
    next
      case (Cons d p'')
      with occ have "s = p'' @ pat @ f'" by simp
      with least have "length p0 \<le> length p''" by blast
      with p Cons show ?thesis by simp
    qed
    with s p show ?thesis by simp
  qed
qed

lemma split_first_None: "split_first pat s = None \<Longrightarrow> \<not> sublist pat s"
proof (induction s)
  case Nil
  then show ?case by (auto split: if_splits)
next
  case (Cons c s)
  then show ?case
    by (auto simp: sublist_Cons_right split: if_splits)
qed

text \<open>
  Without a dollar sign in the fragments, the injector does what its comment says: each
  non-empty fragment, followed by a newline, goes before the first occurrence of its
  closing tag (the one \<open>split_first\<close> finds, by the lemma \<open>split_first_Some\<close>), an
  empty fragment changes nothing, and a text without the tag is unchanged.
\<close>

lemma str_replace_without_dollar:
  assumes "CHR ''$'' \<notin> set replaceValue"
  shows "str_replace s pat replaceValue =
     (case split_first pat s of
        None \<Rightarrow> s
      | Some (preceding, following) \<Rightarrow> preceding @ replaceValue @ following)"
  using assms by (simp add: str_replace_def GetSubstitution_without_dollar split: option.splits)

lemma injectScripts_without_dollar:
  assumes "CHR ''$'' \<notin> set head_html" and "CHR ''$'' \<notin> set body_html"
  shows "injectScripts doc (head_html, body_html) =
     (let html1 = (if head_html = [] then doc
                   else case split_first ''</head>'' doc of
                          None \<Rightarrow> doc
                        | Some (p, f) \<Rightarrow> p @ head_html @ [CHR 0x0A] @ ''</head>'' @ f)
      in if body_html = [] then html1
         else case split_first ''</body>'' html1 of
                None \<Rightarrow> html1
              | Some (p, f) \<Rightarrow> p @ body_html @ [CHR 0x0A] @ ''</body>'' @ f)"
  using assms
  by (simp add: injectScripts_def Let_def str_replace_without_dollar split: option.splits)

text \<open>
  C7 says that, for every document and every pair of fragments, the injector inserts the
  head fragments before the first closing head tag and the body fragments before the first
  closing body tag, by one substitution each. The code expands the dollar patterns of
  \<^verbatim>\<open>String.prototype.replace\<close> in the fragments first, so what is inserted is not always
  the fragment: a head fragment that calls a function named \<^verbatim>\<open>$$\<close> arrives with one
  dollar sign, and in a body fragment the pattern \<^verbatim>\<open>$&\<close> is replaced by the closing body
  tag.
\<close>

theorem dollar_patterns_in_fragments_are_expanded:
  "injectScripts ''<html><head></head><body></body></html>''
       (''<script>$$(document.links)</script>'', [])
     = ''<html><head><script>$(document.links)</script>'' @ [CHR 0x0A]
         @ ''</head><body></body></html>''
   \<and> injectScripts ''<html><head></head><body></body></html>''
       ([], ''<script>r=s.replace(/x/g,`[$&]`)</script>'')
     = ''<html><head></head><body><script>r=s.replace(/x/g,`[</body>]`)</script>''
         @ [CHR 0x0A] @ ''</body></html>''"
  by code_simp

end
